theory Spec2Isabelle
  imports Main "HOL-Library.Sublist" "HOL-Library.AList"
begin

section \<open>Python values used by the client\<close>

text \<open>
  The exceptions that \<open>gps_client.py\<close> can raise. \<open>AuthenticationError\<close> is the
  client's own exception (it carries its message); the other three are the Python
  built-ins raised by indexing a list out of range, by looking up a missing header or
  dictionary key, and by applying an operation to a value of the wrong type.
\<close>

datatype error =
    AuthenticationError string
  | IndexError
  | KeyError
  | TypeError

text \<open>
  \<open>s.split(sep)\<close> for a non-empty separator: scan from the left, cut at every
  occurrence of \<open>sep\<close> and continue behind it. Every call in the client passes a
  non-empty literal, so the \<open>ValueError\<close> of the empty separator is not modelled.
  \<open>piece\<close> is the text collected since the last cut.
\<close>

fun split_from :: "string \<Rightarrow> string \<Rightarrow> string \<Rightarrow> string list" where
  "split_from sep piece [] = [piece]"
| "split_from sep piece (c # cs) =
     (if prefix sep (c # cs)
      then piece # split_from sep [] (drop (length sep - 1) cs)
      else split_from sep (piece @ [c]) cs)"

definition py_split :: "string \<Rightarrow> string \<Rightarrow> string list" where
  "py_split sep s = split_from sep [] s"

text \<open>\<open>sep.join(xs)\<close>\<close>

fun py_join :: "string \<Rightarrow> string list \<Rightarrow> string" where
  "py_join sep [] = []"
| "py_join sep [x] = x"
| "py_join sep (x # y # ys) = x @ sep @ py_join sep (y # ys)"

text \<open>
  \<open>s.replace(old, new)\<close> for a non-empty \<open>old\<close>: every non-overlapping occurrence,
  from the left, is replaced; that is \<open>new.join(s.split(old))\<close>.
\<close>

definition py_replace :: "string \<Rightarrow> string \<Rightarrow> string \<Rightarrow> string" where
  "py_replace old new s = py_join new (py_split old s)"

text \<open>\<open>xs[i]\<close> for a non-negative index: out of range raises \<open>IndexError\<close>.\<close>

definition py_index :: "'a list \<Rightarrow> nat \<Rightarrow> error + 'a" where
  "py_index xs i = (if i < length xs then Inr (xs ! i) else Inl IndexError)"

text \<open>\<open>key.lower()\<close> on header names, which are ASCII.\<close>

definition lower_char :: "char \<Rightarrow> char" where
  "lower_char c =
     (let n = (of_char c :: nat) in if 65 \<le> n \<and> n \<le> 90 then char_of (n + 32) else c)"

definition lower :: "string \<Rightarrow> string" where
  "lower s = map lower_char s"

section \<open>Requests, responses and the transport\<close>

text \<open>
  What \<open>call_api\<close> hands to the HTTP session: the URL, the form data (\<open>None\<close> makes
  the request a GET, anything else a POST), the headers, the cookies and the redirect
  flag. Python dictionaries keep insertion order, so they are association lists.
\<close>

record request =
  url :: string
  data :: "(string \<times> string) list option"
  req_headers :: "(string \<times> string) list"
  req_cookies :: "(string \<times> string) list"
  allow_redirects :: bool

text \<open>
  What the client reads of a response: \<open>response.status\<close>, \<open>response.headers\<close>
  (\<open>name in headers\<close> is \<open>headers name \<noteq> None\<close>, \<open>headers[name]\<close> raises
  \<open>KeyError\<close> on \<open>None\<close>; the key is the header's name as the client writes it) and
  \<open>await response.text()\<close>.
\<close>

record response =
  status :: int
  headers :: "string \<rightharpoonup> string"
  body :: string

text \<open>
  The remote service. The answer to a request may depend on every request sent before,
  so the transport is a function of the history and the request. Every request is taken
  to be answered: connection failures of the HTTP library are outside the model, and so
  is the \<open>ClientSession\<close> object itself, which \<open>call_api\<close> creates on first use and
  whose cookie jar it empties before every request (the cookies sent are those it passes
  explicitly).
\<close>

type_synonym transport = "request list \<Rightarrow> request \<Rightarrow> response"

section \<open>The client\<close>

text \<open>
  \<open>One2TrackConfig\<close> is declared in \<open>client_types.py\<close>; the client reads its
  \<open>username\<close>, \<open>password\<close> and \<open>id\<close> (here \<open>config_id\<close>).
\<close>

record One2TrackConfig =
  username :: string
  password :: string
  config_id :: "string option"

text \<open>
  The fields of \<open>GpsClient\<close>. \<open>log\<close> is not a field of the class: it records the
  requests sent so far, oldest first, and stands for the state of the world outside.
\<close>

record GpsClient =
  config :: One2TrackConfig
  cookie :: string
  csrf :: string
  account_id :: "string option"
  log :: "request list"

definition login_url :: string where
  "login_url = ''https://www.one2trackgps.com/auth/users/sign_in''"

definition base_url :: string where
  "base_url = ''https://www.one2trackgps.com/''"

definition device_url :: string where
  "device_url = ''https://www.one2trackgps.com/users/%account%/devices''"

definition session_cookie :: string where
  "session_cookie = ''_iadmin''"

definition init :: "One2TrackConfig \<Rightarrow> GpsClient" where
  "init cfg = \<lparr>config = cfg, cookie = [], csrf = [], account_id = config_id cfg, log = []\<rparr>"

definition set_account_id :: "string \<Rightarrow> GpsClient \<Rightarrow> GpsClient" where
  "set_account_id a s = s\<lparr>account_id := Some a\<rparr>"

text \<open>
  The request \<open>call_api\<close> builds before it hands it to the session: the caller's extra
  headers, a form content type for a POST that has none, the JSON headers on demand, the
  fixed cookie \<open>accepted_cookies\<close> and, when the client holds one, its session cookie.
\<close>

definition build_request ::
  "string \<Rightarrow> (string \<times> string) list option \<Rightarrow> bool \<Rightarrow> bool \<Rightarrow>
   (string \<times> string) list option \<Rightarrow> GpsClient \<Rightarrow> request" where
  "build_request u d redirects use_json extra_headers s =
     (let headers0 = (case extra_headers of None \<Rightarrow> [] | Some h \<Rightarrow> h);
          cookies0 = [(''accepted_cookies'', ''true'')];
          header_keys = set (map (\<lambda>kv. lower (fst kv)) headers0);
          headers1 = (if d \<noteq> None \<and> ''content-type'' \<notin> header_keys
                      then AList.update ''content-type'' ''application/x-www-form-urlencoded'' headers0
                      else headers0);
          headers2 = (if use_json
                      then AList.update ''Accept'' ''application/json''
                             (AList.update ''content-type'' ''application/json'' headers1)
                      else headers1);
          cookies1 = (if cookie s \<noteq> [] then AList.update ''_iadmin'' (cookie s) cookies0
                      else cookies0)
      in \<lparr>url = u, data = d, req_headers = headers2, req_cookies = cookies1,
          allow_redirects = redirects\<rparr>)"

definition call_api ::
  "transport \<Rightarrow> string \<Rightarrow> (string \<times> string) list option \<Rightarrow> bool \<Rightarrow> bool \<Rightarrow>
   (string \<times> string) list option \<Rightarrow> GpsClient \<Rightarrow> response \<times> GpsClient" where
  "call_api net u d redirects use_json extra_headers s =
     (let req = build_request u d redirects use_json extra_headers s
      in (net (log s) req, s\<lparr>log := log s @ [req]\<rparr>))"

definition parse_cookie :: "response \<Rightarrow> error + string" where
  "parse_cookie resp =
     (let c = (case headers resp ''Set-Cookie'' of None \<Rightarrow> [] | Some v \<Rightarrow> v)
      in if c \<noteq> [] then
           (case py_index (py_split session_cookie c) 1 of
              Inl e \<Rightarrow> Inl e
            | Inr rest \<Rightarrow>
                (case py_index (py_split '';'' rest) 0 of
                   Inl e \<Rightarrow> Inl e
                 | Inr v \<Rightarrow> Inr (py_replace ''='' [] v)))
         else Inr [])"

definition csrf_marker :: string where
  "csrf_marker = ''name=\"csrf-token\" content=\"''"

definition parse_csrf :: "string \<Rightarrow> error + string" where
  "parse_csrf html =
     (case py_index (py_split csrf_marker html) 1 of
        Inl e \<Rightarrow> Inl e
      | Inr rest \<Rightarrow> py_index (py_split ''\"'' rest) 0)"

definition get_csrf :: "transport \<Rightarrow> GpsClient \<Rightarrow> (error + unit) \<times> GpsClient" where
  "get_csrf net s =
     (let (login_page, s1) = call_api net login_url None True False None s
      in if status login_page = 200 then
           (case parse_csrf (body login_page) of
              Inl e \<Rightarrow> (Inl e, s1)
            | Inr token \<Rightarrow>
                (let s2 = s1\<lparr>csrf := token\<rparr>
                 in case parse_cookie login_page of
                      Inl e \<Rightarrow> (Inl e, s2)
                    | Inr c \<Rightarrow> (Inr (), s2\<lparr>cookie := c\<rparr>)))
         else (Inl (AuthenticationError ''Login page unavailable''), s1))"

text \<open>
  In the success branch the last debug line formats \<open>response.headers['Location']\<close>
  into an f-string, which is evaluated whatever the log level: a missing header raises
  \<open>KeyError\<close> after the cookie has been stored.
\<close>

definition login_data :: "GpsClient \<Rightarrow> (string \<times> string) list" where
  "login_data s = [(''authenticity_token'', csrf s),
                   (''user[login]'', username (config s)),
                   (''user[password]'', password (config s)),
                   (''gdpr'', ''1''),
                   (''user[remember_me]'', ''1'')]"

definition login :: "transport \<Rightarrow> GpsClient \<Rightarrow> (error + unit) \<times> GpsClient" where
  "login net s =
     (let (resp, s1) = call_api net login_url (Some (login_data s)) False False None s
      in if status resp = 302 \<and> headers resp ''Set-Cookie'' \<noteq> None then
           (case parse_cookie resp of
              Inl e \<Rightarrow> (Inl e, s1)
            | Inr c \<Rightarrow>
                (let s2 = s1\<lparr>cookie := c\<rparr>
                 in case headers resp ''Location'' of
                      None \<Rightarrow> (Inl KeyError, s2)
                    | Some redirect \<Rightarrow> (Inr (), s2)))
         else (Inl (AuthenticationError ''Invalid username or password''), s1))"

definition get_user_id :: "transport \<Rightarrow> GpsClient \<Rightarrow> (error + string) \<times> GpsClient" where
  "get_user_id net s =
     (let (resp, s1) = call_api net base_url None False False None s
      in case headers resp ''Location'' of
           None \<Rightarrow> (Inl KeyError, s1)
         | Some u \<Rightarrow>
             (case py_index (py_split ''/'' u) 4 of
                Inl e \<Rightarrow> (Inl e, s1)
              | Inr a \<Rightarrow> (Inr a, set_account_id a s1)))"

definition install :: "transport \<Rightarrow> GpsClient \<Rightarrow> (error + string) \<times> GpsClient" where
  "install net s =
     (case get_csrf net s of
        (Inl e, s1) \<Rightarrow> (Inl e, s1)
      | (Inr u, s1) \<Rightarrow>
          (case login net s1 of
             (Inl e, s2) \<Rightarrow> (Inl e, s2)
           | (Inr v, s2) \<Rightarrow> get_user_id net s2))"

text \<open>
  \<open>_ensure_authenticated\<close>. \<open>not self.account_id\<close> holds for \<open>None\<close> and for the
  empty string.
\<close>

definition ensure_authenticated :: "transport \<Rightarrow> GpsClient \<Rightarrow> (error + unit) \<times> GpsClient" where
  "ensure_authenticated net s =
     (case (if cookie s = [] \<or> csrf s = []
            then (case get_csrf net s of
                    (Inl e, s1) \<Rightarrow> (Inl e, s1)
                  | (Inr u, s1) \<Rightarrow> login net s1)
            else (Inr (), s)) of
        (Inl e, s2) \<Rightarrow> (Inl e, s2)
      | (Inr u, s2) \<Rightarrow>
          (if account_id s2 = None \<or> account_id s2 = Some []
           then (case get_user_id net s2 of
                   (Inl e, s3) \<Rightarrow> (Inl e, s3)
                 | (Inr a, s3) \<Rightarrow> (Inr (), s3))
           else (Inr (), s2)))"

section \<open>Device data\<close>

text \<open>
  The values \<open>json.loads\<close> returns. A float is \<open>m * 2 ^ e\<close>, an infinity or NaN
  (\<open>json.loads\<close> accepts \<open>Infinity\<close> and \<open>NaN\<close>); the client never inspects one.
  A dictionary is the list of its items in insertion order, with distinct keys.
\<close>

datatype py_float = Finite int int | PosInf | NegInf | NaN

datatype json =
    JNull
  | JBool bool
  | JInt int
  | JFloat py_float
  | JStr string
  | JArr "json list"
  | JObj "(string \<times> json) list"

text \<open>
  What \<open>map\<close> iterates over: the elements of a list, the keys of a dictionary, the
  characters of a string (one-character strings; the client only ever finds out whether
  there is one); anything else is not iterable.
\<close>

fun py_iter :: "json \<Rightarrow> error + json list" where
  "py_iter (JArr xs) = Inr xs"
| "py_iter (JObj kvs) = Inr (map (\<lambda>kv. JStr (fst kv)) kvs)"
| "py_iter (JStr cs) = Inr (map (\<lambda>c. JStr [c]) cs)"
| "py_iter v = Inl TypeError"

text \<open>
  \<open>x[key]\<close> for a string key: a dictionary is looked up (\<open>KeyError\<close> when the key is
  missing); lists and strings take integer indices only and every other value is not
  subscriptable.
\<close>

fun py_getitem :: "json \<Rightarrow> string \<Rightarrow> error + json" where
  "py_getitem (JObj kvs) k = (case map_of kvs k of None \<Rightarrow> Inl KeyError | Some v \<Rightarrow> Inr v)"
| "py_getitem v k = Inl TypeError"

text \<open>\<open>list(map(f, xs))\<close> where \<open>f\<close> may raise: the first exception ends the loop.\<close>

fun map_err :: "('a \<Rightarrow> error + 'b) \<Rightarrow> 'a list \<Rightarrow> error + 'b list" where
  "map_err f [] = Inr []"
| "map_err f (x # xs) =
     (case f x of
        Inl e \<Rightarrow> Inl e
      | Inr y \<Rightarrow> (case map_err f xs of Inl e \<Rightarrow> Inl e | Inr ys \<Rightarrow> Inr (y # ys)))"

definition unwrap_devices :: "json \<Rightarrow> error + json list" where
  "unwrap_devices devices =
     (case py_iter devices of
        Inl e \<Rightarrow> Inl e
      | Inr xs \<Rightarrow> map_err (\<lambda>x. py_getitem x ''device'') xs)"

text \<open>
  \<open>get_device_data\<close>. \<open>loads\<close> stands for \<open>json.loads\<close> of the standard library:
  \<open>None\<close> when it raises. The result \<open>None\<close> is Python's \<open>None\<close>. Passing
  \<open>self.account_id = None\<close> to \<open>str.replace\<close> raises \<open>TypeError\<close> before any
  request is sent.
\<close>

text \<open>
  The shape the service is expected to send: a list whose elements are dictionaries with
  a key \<open>device\<close>.
\<close>

fun is_wrapper :: "json \<Rightarrow> bool" where
  "is_wrapper (JObj kvs) = (map_of kvs ''device'' \<noteq> None)"
| "is_wrapper v = False"

fun is_device_list :: "json \<Rightarrow> bool" where
  "is_device_list (JArr xs) = list_all is_wrapper xs"
| "is_device_list v = False"

definition device_list_url :: "string \<Rightarrow> string" where
  "device_list_url a = py_replace ''%account%'' a device_url"

definition get_device_data ::
  "transport \<Rightarrow> (string \<Rightarrow> json option) \<Rightarrow> GpsClient \<Rightarrow>
   (error + json list option) \<times> GpsClient" where
  "get_device_data net loads s =
     (case account_id s of
        None \<Rightarrow> (Inl TypeError, s)
      | Some a \<Rightarrow>
          (let u = device_list_url a;
               (resp, s1) = call_api net u None True True None s;
               rawjson = body resp
           in if status resp = 200 then
                (case loads rawjson of
                   None \<Rightarrow> (Inr None, s1)
                 | Some devices \<Rightarrow>
                     (case unwrap_devices devices of
                        Inl e \<Rightarrow> (Inr None, s1)
                      | Inr ds \<Rightarrow> (Inr (Some ds), s1)))
              else (Inr (Some []), s1\<lparr>cookie := [], csrf := []\<rparr>)))"

text \<open>
  The first statement of \<open>update\<close>: with a cookie nothing happens (``already logged
  in''), without one the client renews its login.
\<close>

definition renew_login :: "transport \<Rightarrow> GpsClient \<Rightarrow> (error + unit) \<times> GpsClient" where
  "renew_login net s = (if cookie s \<noteq> [] then (Inr (), s) else ensure_authenticated net s)"

text \<open>
  \<open>update\<close>. Only the call of \<open>get_device_data\<close> stands inside the \<open>try\<close>; its
  handler ends without a \<open>return\<close>, so the result is \<open>None\<close>.
\<close>

definition update ::
  "transport \<Rightarrow> (string \<Rightarrow> json option) \<Rightarrow> GpsClient \<Rightarrow>
   (error + json list option) \<times> GpsClient" where
  "update net loads s =
     (case renew_login net s of
        (Inl e, s1) \<Rightarrow> (Inl e, s1)
      | (Inr u, s1) \<Rightarrow>
          (case get_device_data net loads s1 of
             (Inl (AuthenticationError m), s2) \<Rightarrow> (Inr None, s2\<lparr>cookie := [], csrf := []\<rparr>)
           | (Inl e, s2) \<Rightarrow> (Inl e, s2)
           | (Inr devices, s2) \<Rightarrow> (Inr devices, s2)))"

section \<open>Messages\<close>

text \<open>The value of the form field \<open>utf8\<close>: U+2713 in UTF-8.\<close>

definition check_mark :: string where
  "check_mark = [CHR 0xE2, CHR 0x9C, CHR 0x93]"

definition messages_url :: "string \<Rightarrow> string" where
  "messages_url device_id = ''https://www.one2trackgps.com/devices/'' @ device_id @ ''/messages''"

definition message_data :: "string \<Rightarrow> string \<Rightarrow> (string \<times> string) list" where
  "message_data csrf_token message = [(''utf8'', check_mark),
                                      (''authenticity_token'', csrf_token),
                                      (''device_message[message]'', message)]"

definition message_headers :: "string \<Rightarrow> (string \<times> string) list" where
  "message_headers csrf_token = [(''X-CSRF-Token'', csrf_token),
                                 (''X-Requested-With'', ''XMLHttpRequest'')]"

definition send_device_message ::
  "transport \<Rightarrow> string \<Rightarrow> string \<Rightarrow> string option \<Rightarrow> GpsClient \<Rightarrow>
   (error + unit) \<times> GpsClient" where
  "send_device_message net device_id message title s =
     (case ensure_authenticated net s of
        (Inl e, s1) \<Rightarrow> (Inl e, s1)
      | (Inr u, s1) \<Rightarrow>
          (let (resp, s2) = call_api net (messages_url device_id) None True False None s1
           in if status resp \<noteq> 200
              then (Inl (AuthenticationError ''Unable to access message page''), s2)
              else
                (case parse_csrf (body resp) of
                   Inl ex \<Rightarrow> (Inl (AuthenticationError ''CSRF token missing''), s2)
                 | Inr csrf_token \<Rightarrow>
                     (let (resp2, s3) = call_api net (messages_url device_id)
                                          (Some (message_data csrf_token message))
                                          True False (Some (message_headers csrf_token)) s2
                      in if status resp2 \<noteq> 200
                         then (Inl (AuthenticationError ''Failed to send message''), s3)
                         else (Inr (), s3)))))"

section \<open>The requests of each step\<close>

text \<open>The request each step sends when it starts in state \<open>s\<close>.\<close>

definition login_page_request :: "GpsClient \<Rightarrow> request" where
  "login_page_request s = build_request login_url None True False None s"

definition login_request :: "GpsClient \<Rightarrow> request" where
  "login_request s = build_request login_url (Some (login_data s)) False False None s"

definition user_id_request :: "GpsClient \<Rightarrow> request" where
  "user_id_request s = build_request base_url None False False None s"

definition device_request :: "string \<Rightarrow> GpsClient \<Rightarrow> request" where
  "device_request a s = build_request (device_list_url a) None True True None s"

definition message_page_request :: "string \<Rightarrow> GpsClient \<Rightarrow> request" where
  "message_page_request device_id s = build_request (messages_url device_id) None True False None s"

definition message_post_request :: "string \<Rightarrow> string \<Rightarrow> string \<Rightarrow> GpsClient \<Rightarrow> request" where
  "message_post_request device_id csrf_token message s =
     build_request (messages_url device_id) (Some (message_data csrf_token message))
       True False (Some (message_headers csrf_token)) s"

text \<open>
  Only \<open>get_device_data\<close> calls \<open>call_api\<close> with \<open>use_json\<close>, so the \<open>Accept\<close>
  header tells the device-list fetch from every other request.
\<close>

definition is_device_fetch :: "request \<Rightarrow> bool" where
  "is_device_fetch r = (map_of (req_headers r) ''Accept'' = Some ''application/json'')"

text \<open>The session cookie a request carries, if any.\<close>

definition sent_cookie :: "request \<Rightarrow> string option" where
  "sent_cookie r = map_of (req_cookies r) ''_iadmin''"

text \<open>The requests sent while the client went from state \<open>s\<close> to state \<open>s'\<close>.\<close>

definition sent_since :: "GpsClient \<Rightarrow> GpsClient \<Rightarrow> request list" where
  "sent_since s s' = drop (length (log s)) (log s')"

section \<open>Sample services\<close>

text \<open>
  A service that answers the \<open>n\<close>-th request of a run with the \<open>n\<close>-th response of a
  script, and with 404 once the script is used up.
\<close>

definition not_found :: response where
  "not_found = \<lparr>status = 404, headers = Map.empty, body = []\<rparr>"

definition scripted :: "response list \<Rightarrow> transport" where
  "scripted rs history req = (if length history < length rs then rs ! length history else not_found)"

definition sample_config :: One2TrackConfig where
  "sample_config = \<lparr>username = ''user'', password = ''secret'', config_id = Some ''42''\<rparr>"

definition new_config :: One2TrackConfig where
  "new_config = \<lparr>username = ''user'', password = ''secret'', config_id = None\<rparr>"

definition login_page :: response where
  "login_page =
     \<lparr>status = 200,
      headers = [''Set-Cookie'' \<mapsto> ''_iadmin=cookieA; Path=/''],
      body = ''<meta name=\"csrf-token\" content=\"abc123\" />''\<rparr>"

definition login_accepted :: response where
  "login_accepted =
     \<lparr>status = 302,
      headers = [''Set-Cookie'' \<mapsto> ''_iadmin=cookieB; Path=/'', ''Location'' \<mapsto> ''/users/42/home''],
      body = []\<rparr>"

text \<open>A redirect that accepts the login and resets the session cookie to the empty value.\<close>

definition login_cookie_cleared :: response where
  "login_cookie_cleared =
     \<lparr>status = 302,
      headers = [''Set-Cookie'' \<mapsto> ''_iadmin=; Path=/; Max-Age=0'',
                 ''Location'' \<mapsto> ''/users/42/home''],
      body = []\<rparr>"

definition login_rejected :: response where
  "login_rejected = \<lparr>status = 200, headers = Map.empty, body = ''<html>Sign in</html>''\<rparr>"

text \<open>A response of the given status that sets some cookie other than the session cookie.\<close>

definition foreign_cookie :: "int \<Rightarrow> response" where
  "foreign_cookie st =
     \<lparr>status = st,
      headers = [''Set-Cookie'' \<mapsto> ''locale=nl; Path=/'', ''Location'' \<mapsto> ''/auth/users/sign_in''],
      body = ''<meta name=\"csrf-token\" content=\"abc123\" />''\<rparr>"

definition root_redirect :: response where
  "root_redirect =
     \<lparr>status = 302, headers = [''Location'' \<mapsto> ''https://host/users/42/devices''], body = []\<rparr>"

definition unavailable :: response where
  "unavailable = \<lparr>status = 503, headers = Map.empty, body = []\<rparr>"

definition unauthorized :: response where
  "unauthorized = \<lparr>status = 401, headers = Map.empty, body = []\<rparr>"

definition ok_with :: "string \<Rightarrow> response" where
  "ok_with b = \<lparr>status = 200, headers = Map.empty, body = b\<rparr>"

text \<open>A client that holds a session already.\<close>

definition logged_in :: GpsClient where
  "logged_in = (init sample_config)\<lparr>cookie := ''cookieB'', csrf := ''abc123''\<rparr>"

definition watch :: json where
  "watch = JObj [(''uuid'', JStr ''u1''), (''name'', JStr ''Watch'')]"

text \<open>\<open>json.loads\<close> on the few bodies the sample services send.\<close>

definition sample_loads :: "string \<Rightarrow> json option" where
  "sample_loads b =
     (if b = ''[{\"device\":{\"uuid\":\"u1\",\"name\":\"Watch\"}}]''
        then Some (JArr [JObj [(''device'', watch)]])
      else if b = ''[{\"device\":{\"uuid\":\"u1\",\"name\":\"Watch\"}},{\"id\":7}]''
        then Some (JArr [JObj [(''device'', watch)], JObj [(''id'', JInt 7)]])
      else if b = ''[]'' then Some (JArr [])
      else if b = ''{}'' then Some (JObj [])
      else if b = ''{\"error\":\"expired\"}'' then Some (JObj [(''error'', JStr ''expired'')])
      else if b = ''null'' then Some JNull
      else None)"

section \<open>Unfolding the definitions\<close>

lemmas client_defs =
  update_def renew_login_def ensure_authenticated_def get_csrf_def login_def get_user_id_def
  set_account_id_def get_device_data_def send_device_message_def call_api_def
  build_request_def parse_csrf_def parse_cookie_def py_index_def py_split_def py_replace_def
  unwrap_devices_def login_data_def login_url_def base_url_def device_url_def
  device_list_url_def csrf_marker_def session_cookie_def init_def messages_url_def
  message_data_def message_headers_def Let_def

lemmas sample_defs =
  scripted_def not_found_def sample_config_def new_config_def login_page_def
  login_accepted_def login_cookie_cleared_def login_rejected_def foreign_cookie_def root_redirect_def unavailable_def
  unauthorized_def ok_with_def sample_loads_def watch_def logged_in_def

section \<open>Splitting strings\<close>

text \<open>
  \<open>split_from\<close> only ever extends the piece it was given, which yields a recursion for
  \<open>py_split\<close> without the accumulator.
\<close>

lemma split_from_piece:
  "split_from sep piece s = (piece @ hd (split_from sep [] s)) # tl (split_from sep [] s)"
proof (induction s arbitrary: piece)
  case Nil
  show ?case by simp
next
  case (Cons c cs)
  show ?case
  proof (cases "prefix sep (c # cs)")
    case True
    then show ?thesis by simp
  next
    case False
    have "split_from sep (piece @ [c]) cs
            = ((piece @ [c]) @ hd (split_from sep [] cs)) # tl (split_from sep [] cs)"
      by (rule Cons.IH)
    moreover have "split_from sep [c] cs
            = ([c] @ hd (split_from sep [] cs)) # tl (split_from sep [] cs)"
      by (rule Cons.IH)
    ultimately show ?thesis using False by simp
  qed
qed

lemma py_split_Nil: "py_split sep [] = [[]]"
  by (simp add: py_split_def)

lemma py_split_Cons:
  "py_split sep (c # cs) =
     (if prefix sep (c # cs) then [] # py_split sep (drop (length sep - 1) cs)
      else (c # hd (py_split sep cs)) # tl (py_split sep cs))"
  using split_from_piece [of sep "[c]" cs] by (simp add: py_split_def)

lemma py_split_not_Nil: "py_split sep s \<noteq> []"
  by (cases s) (simp_all add: py_split_Nil py_split_Cons)

lemma py_split_no_occurrence:
  "\<not> sublist sep s \<Longrightarrow> py_split sep s = [s]"
proof (induction s)
  case Nil
  show ?case by (simp add: py_split_Nil)
next
  case (Cons c cs)
  from Cons.prems have "\<not> prefix sep (c # cs)" and "\<not> sublist sep cs"
    by (simp_all add: sublist_Cons_right)
  with Cons.IH show ?case by (simp add: py_split_Cons)
qed

lemma py_split_at_sep:
  assumes "sep \<noteq> []"
  shows "py_split sep (sep @ rest) = [] # py_split sep rest"
proof -
  from assms obtain c cs where sep: "sep = c # cs" by (cases sep) auto
  show ?thesis by (simp add: sep py_split_Cons)
qed

lemma py_split_first_occurrence:
  assumes "sep \<noteq> []" and "\<not> sublist sep (pre @ butlast sep)"
  shows "py_split sep (pre @ sep @ rest) = pre # py_split sep rest"
  using assms(2)
proof (induction pre)
  case Nil
  show ?case using py_split_at_sep [OF assms(1)] by simp
next
  case (Cons p ps)
  have whole: "(p # ps) @ sep @ rest = ((p # ps) @ butlast sep) @ last sep # rest"
    using assms(1) by (simp add: append_butlast_last_id [symmetric] del: append_butlast_last_id)
  have "\<not> prefix sep ((p # ps) @ sep @ rest)"
  proof
    assume a: "prefix sep ((p # ps) @ sep @ rest)"
    have "prefix ((p # ps) @ butlast sep) ((p # ps) @ sep @ rest)"
      by (subst whole) simp
    moreover have "length sep \<le> length ((p # ps) @ butlast sep)"
      using assms(1) by simp
    ultimately have "prefix sep ((p # ps) @ butlast sep)"
      using a by (rule prefix_length_prefix [rotated])
    with Cons.prems show False by auto
  qed
  moreover from Cons.prems have "\<not> sublist sep (ps @ butlast sep)"
    by (simp add: sublist_Cons_right)
  ultimately show ?case using Cons.IH by (simp add: py_split_Cons)
qed

lemma prefix_skips_foreign_char:
  assumes "prefix sep (x @ c # r)" and "c \<notin> set sep"
  shows "prefix sep x"
proof -
  from assms(1) consider "prefix sep x" | z where "sep = x @ z" "prefix z (c # r)"
    by (auto simp: prefix_append)
  then show ?thesis
  proof cases
    case 1
    then show ?thesis .
  next
    case 2
    with assms(2) have "z = []" by (cases z) auto
    with 2 show ?thesis by simp
  qed
qed

lemma py_split_first_piece:
  assumes "sep \<noteq> []" and "c \<notin> set sep" and "\<not> sublist sep x"
  shows "hd (py_split sep (x @ c # post)) = x @ c # hd (py_split sep post)"
  using assms(3)
proof (induction x)
  case Nil
  from assms(1,2) have "\<not> prefix sep (c # post)" by (cases sep) auto
  then show ?case by (simp add: py_split_Cons)
next
  case (Cons y ys)
  have "\<not> prefix sep (y # ys @ c # post)"
  proof
    assume "prefix sep (y # ys @ c # post)"
    then have "prefix sep ((y # ys) @ c # post)" by simp
    then have "prefix sep (y # ys)" using assms(2) by (rule prefix_skips_foreign_char)
    with Cons.prems show False by auto
  qed
  moreover from Cons.prems have "\<not> sublist sep ys" by (simp add: sublist_Cons_right)
  ultimately show ?case using Cons.IH by (simp add: py_split_Cons)
qed

lemma sublist_single: "sublist [c] xs \<longleftrightarrow> c \<in> set xs"
  by (induction xs) (auto simp: sublist_Cons_right)

lemma py_replace_strip_leading:
  assumes "c \<notin> set v"
  shows "py_replace [c] [] (c # v) = v"
proof -
  have "py_split [c] ([c] @ v) = [] # py_split [c] v" by (rule py_split_at_sep) simp
  moreover have "py_split [c] v = [v]"
    using assms by (simp add: py_split_no_occurrence sublist_single)
  ultimately show ?thesis by (simp add: py_replace_def)
qed

lemma sublist_overlap_free:
  assumes "sep \<noteq> []" and "hd sep \<notin> set (tl sep)" and "sublist sep (pre @ butlast sep)"
  shows "sublist sep pre"
proof -
  have short: "\<not> length sep \<le> length (butlast sep)"
    using assms(1) by (cases sep) (simp_all del: butlast.simps)
  from assms(3) consider "sublist sep pre" | "sublist sep (butlast sep)"
    | xs1 xs2 where "sep = xs1 @ xs2" "suffix xs1 pre" "prefix xs2 (butlast sep)"
    by (auto simp: sublist_append)
  then show ?thesis
  proof cases
    case 1
    then show ?thesis .
  next
    case 2
    then have "length sep \<le> length (butlast sep)" by (rule sublist_length_le)
    with short show ?thesis by blast
  next
    case 3
    show ?thesis
    proof (cases "xs2 = []")
      case True
      with 3 have "suffix sep pre" by simp
      then show ?thesis by (rule suffix_imp_sublist)
    next
      case False
      then obtain y ys where xs2: "xs2 = y # ys" by (cases xs2) auto
      from assms(1) obtain b bs where sep: "sep = b # bs" by (cases sep) auto
      have "butlast sep \<noteq> []" using 3(3) xs2 by auto
      then have "hd (butlast sep) = b" using sep by (cases bs) auto
      with 3(3) xs2 \<open>butlast sep \<noteq> []\<close> have "y = b"
        by (cases "butlast sep") auto
      show ?thesis
      proof (cases "xs1 = []")
        case True
        with 3 have "prefix sep (butlast sep)" by simp
        then have "length sep \<le> length (butlast sep)" by (rule prefix_length_le)
        with short show ?thesis by blast
      next
        case False
        then obtain a as where "xs1 = a # as" by (cases xs1) auto
        with 3(1) xs2 sep have "bs = as @ y # ys" by simp
        with \<open>y = b\<close> have "b \<in> set bs" by simp
        with assms(2) sep show ?thesis by simp
      qed
    qed
  qed
qed

lemma py_index_0: "py_index (py_split sep s) 0 = Inr (hd (py_split sep s))"
  using py_split_not_Nil [of sep s] by (cases "py_split sep s") (simp_all add: py_index_def)

lemma py_index_1_Cons: "py_index (p # py_split sep s) 1 = Inr (hd (py_split sep s))"
  using py_split_not_Nil [of sep s] by (cases "py_split sep s") (simp_all add: py_index_def)

section \<open>Cookie extraction\<close>

text \<open>
  C6, as stated, fails: \<open>parse_cookie\<close> deletes every \<open>=\<close> of the text it cut out,
  so a value that contains one (here the padding of a base64 value) does not come back.
\<close>

theorem parse_cookie_drops_equals_sign:
  "parse_cookie \<lparr>status = 302, headers = [''Set-Cookie'' \<mapsto> ''_iadmin=dG9rZW4=; Path=/''],
                  body = []\<rparr> = Inr ''dG9rZW4''
   \<and> ''dG9rZW4'' \<noteq> ''dG9rZW4=''"
  by (simp add: parse_cookie_def py_index_def py_split_def py_replace_def session_cookie_def)

text \<open>
  C6, amended: when the \<open>Set-Cookie\<close> header reads \<open>pre _iadmin=VALUE; post\<close>, the
  cookie name occurs neither in \<open>pre\<close> nor in \<open>VALUE\<close>, and \<open>VALUE\<close> contains
  neither \<open>=\<close> nor \<open>;\<close>, then \<open>parse_cookie\<close> returns exactly \<open>VALUE\<close>.
\<close>

theorem parse_cookie_value:
  assumes hdr: "headers resp ''Set-Cookie'' = Some (pre @ session_cookie @ ''='' @ v @ '';'' @ post)"
    and pre: "\<not> sublist session_cookie pre"
    and v: "\<not> sublist session_cookie v"
    and eq: "CHR ''='' \<notin> set v"
    and semi: "CHR '';'' \<notin> set v"
  shows "parse_cookie resp = Inr v"
proof -
  let ?rest = "''='' @ v @ '';'' @ post"
  have name: "session_cookie \<noteq> []" "hd session_cookie \<notin> set (tl session_cookie)"
    by (simp_all add: session_cookie_def)
  have "\<not> sublist session_cookie (pre @ butlast session_cookie)"
    using sublist_overlap_free [OF name] pre by blast
  with name(1) have split1:
    "py_split session_cookie (pre @ session_cookie @ ?rest) = pre # py_split session_cookie ?rest"
    by (rule py_split_first_occurrence)
  have "\<not> sublist session_cookie (''='' @ v)"
    using v by (simp add: sublist_Cons_right session_cookie_def)
  then have piece:
    "hd (py_split session_cookie ((''='' @ v) @ CHR '';'' # post))
       = (''='' @ v) @ CHR '';'' # hd (py_split session_cookie post)"
    by (intro py_split_first_piece) (simp_all add: session_cookie_def)
  have "\<not> sublist '';'' ((''='' @ v) @ butlast '';'')"
    using semi by (simp add: sublist_single)
  then have split2:
    "py_split '';'' ((''='' @ v) @ '';'' @ hd (py_split session_cookie post))
       = (''='' @ v) # py_split '';'' (hd (py_split session_cookie post))"
    by (intro py_split_first_occurrence) simp_all
  have strip: "py_replace ''='' [] (''='' @ v) = v"
    using py_replace_strip_leading [OF eq] by simp
  have i1: "py_index (py_split session_cookie (pre @ session_cookie @ ?rest)) 1
              = Inr ((''='' @ v) @ '';'' @ hd (py_split session_cookie post))"
    using piece by (simp only: split1 py_index_1_Cons) simp
  have i0: "py_index (py_split '';'' ((''='' @ v) @ '';'' @ hd (py_split session_cookie post))) 0
              = Inr (''='' @ v)"
    by (simp only: split2 py_index_def) simp
  show ?thesis
    unfolding parse_cookie_def hdr using i1 i0 strip
    by (simp del: append.simps append_assoc add: Let_def)
qed

theorem parse_cookie_value_witness:
  "headers login_page ''Set-Cookie''
     = Some ([] @ session_cookie @ ''='' @ ''cookieA'' @ '';'' @ '' Path=/'')
   \<and> \<not> sublist session_cookie []
   \<and> \<not> sublist session_cookie ''cookieA''
   \<and> CHR ''='' \<notin> set ''cookieA''
   \<and> CHR '';'' \<notin> set ''cookieA''
   \<and> parse_cookie login_page = Inr ''cookieA''"
proof -
  have h: "headers login_page ''Set-Cookie''
             = Some ([] @ session_cookie @ ''='' @ ''cookieA'' @ '';'' @ '' Path=/'')"
    by (simp add: login_page_def session_cookie_def)
  have p: "\<not> sublist session_cookie []"
    by (simp add: session_cookie_def)
  have v: "\<not> sublist session_cookie ''cookieA''"
    by (simp add: session_cookie_def sublist_code)
  have e: "CHR ''='' \<notin> set ''cookieA''" and c: "CHR '';'' \<notin> set ''cookieA''"
    by simp_all
  from parse_cookie_value [OF h p v e c] h p v e c show ?thesis
    by blast
qed

lemma parse_cookie_error: "parse_cookie resp = Inl e \<Longrightarrow> e = IndexError"
  by (auto simp: parse_cookie_def py_index_def Let_def split: if_splits sum.splits option.splits)

lemma parse_csrf_error: "parse_csrf html = Inl e \<Longrightarrow> e = IndexError"
  by (auto simp: parse_csrf_def py_index_def split: if_splits sum.splits)

lemma parse_cookie_without_name:
  assumes "headers resp ''Set-Cookie'' = Some h" and "h \<noteq> []" and "\<not> sublist session_cookie h"
  shows "parse_cookie resp = Inl IndexError"
  using assms by (simp add: parse_cookie_def py_split_no_occurrence py_index_def)

section \<open>The steps, one request at a time\<close>

lemma get_csrf_step:
  "get_csrf net s =
     (let page = net (log s) (login_page_request s);
          s1 = s\<lparr>log := log s @ [login_page_request s]\<rparr>
      in if status page = 200 then
           (case parse_csrf (body page) of
              Inl e \<Rightarrow> (Inl e, s1)
            | Inr token \<Rightarrow>
                (case parse_cookie page of
                   Inl e \<Rightarrow> (Inl e, s1\<lparr>csrf := token\<rparr>)
                 | Inr c \<Rightarrow> (Inr (), s1\<lparr>csrf := token, cookie := c\<rparr>)))
         else (Inl (AuthenticationError ''Login page unavailable''), s1))"
  by (auto simp: get_csrf_def call_api_def login_page_request_def Let_def split: sum.splits)

lemma login_step:
  "login net s =
     (let resp = net (log s) (login_request s);
          s1 = s\<lparr>log := log s @ [login_request s]\<rparr>
      in if status resp = 302 \<and> headers resp ''Set-Cookie'' \<noteq> None then
           (case parse_cookie resp of
              Inl e \<Rightarrow> (Inl e, s1)
            | Inr c \<Rightarrow>
                (case headers resp ''Location'' of
                   None \<Rightarrow> (Inl KeyError, s1\<lparr>cookie := c\<rparr>)
                 | Some redirect \<Rightarrow> (Inr (), s1\<lparr>cookie := c\<rparr>)))
         else (Inl (AuthenticationError ''Invalid username or password''), s1))"
  by (auto simp: login_def call_api_def login_request_def Let_def split: sum.splits option.splits)

lemma get_user_id_step:
  "get_user_id net s =
     (let resp = net (log s) (user_id_request s);
          s1 = s\<lparr>log := log s @ [user_id_request s]\<rparr>
      in case headers resp ''Location'' of
           None \<Rightarrow> (Inl KeyError, s1)
         | Some u \<Rightarrow>
             (case py_index (py_split ''/'' u) 4 of
                Inl e \<Rightarrow> (Inl e, s1)
              | Inr a \<Rightarrow> (Inr a, s1\<lparr>account_id := Some a\<rparr>)))"
  by (auto simp: get_user_id_def call_api_def user_id_request_def set_account_id_def Let_def
           split: sum.splits option.splits)

lemma get_device_data_step:
  "account_id s = Some a \<Longrightarrow>
   get_device_data net loads s =
     (let resp = net (log s) (device_request a s);
          s1 = s\<lparr>log := log s @ [device_request a s]\<rparr>
      in if status resp = 200 then
           (case loads (body resp) of
              None \<Rightarrow> (Inr None, s1)
            | Some devices \<Rightarrow>
                (case unwrap_devices devices of
                   Inl e \<Rightarrow> (Inr None, s1)
                 | Inr ds \<Rightarrow> (Inr (Some ds), s1)))
         else (Inr (Some []), s1\<lparr>cookie := [], csrf := []\<rparr>))"
  by (simp add: get_device_data_def call_api_def device_request_def Let_def)

lemma get_device_data_no_account:
  "account_id s = None \<Longrightarrow> get_device_data net loads s = (Inl TypeError, s)"
  by (simp add: get_device_data_def)

lemma get_device_data_error:
  "get_device_data net loads s = (Inl e, s') \<Longrightarrow> e = TypeError"
  by (cases "account_id s")
     (auto simp: get_device_data_no_account get_device_data_step Let_def
           split: if_splits option.splits sum.splits)

lemma update_after_login:
  assumes "renew_login net s = (Inr (), s1)"
  shows "update net loads s = get_device_data net loads s1"
proof (cases "get_device_data net loads s1")
  case (Pair r s2)
  show ?thesis
  proof (cases r)
    case (Inl e)
    with Pair have "e = TypeError" by (simp add: get_device_data_error)
    with Pair Inl assms show ?thesis by (simp add: update_def)
  next
    case (Inr ds)
    with Pair assms show ?thesis by (simp add: update_def)
  qed
qed

lemma update_login_failed:
  assumes "renew_login net s = (Inl e, s1)"
  shows "update net loads s = (Inl e, s1)"
  using assms by (simp add: update_def)

section \<open>A cookie header without the session cookie\<close>

text \<open>
  C10: a response whose \<open>Set-Cookie\<close> header is not empty and does not contain the
  name \<open>_iadmin\<close> makes \<open>parse_cookie\<close> raise \<open>IndexError\<close>; a login that receives
  it with status 302, and a pre-login fetch that receives it with status 200, end with
  that \<open>IndexError\<close>, which is no \<open>AuthenticationError\<close>.
\<close>

theorem missing_cookie_name_raises_IndexError:
  assumes "headers resp ''Set-Cookie'' = Some h" and "h \<noteq> []" and "\<not> sublist session_cookie h"
  shows "parse_cookie resp = Inl IndexError
       \<and> (net (log s) (login_request s) = resp \<and> status resp = 302
            \<longrightarrow> fst (login net s) = Inl IndexError)
       \<and> (net (log s) (login_page_request s) = resp \<and> status resp = 200
            \<longrightarrow> fst (get_csrf net s) = Inl IndexError)"
proof -
  have pc: "parse_cookie resp = Inl IndexError"
    using assms by (rule parse_cookie_without_name)
  have "fst (login net s) = Inl IndexError"
    if "net (log s) (login_request s) = resp" and "status resp = 302"
    using that pc assms(1) by (simp add: login_step Let_def)
  moreover have "fst (get_csrf net s) = Inl IndexError"
    if "net (log s) (login_page_request s) = resp" and "status resp = 200"
  proof (cases "parse_csrf (body resp)")
    case (Inl e)
    then have "e = IndexError" by (rule parse_csrf_error)
    with Inl that show ?thesis by (simp add: get_csrf_step Let_def)
  next
    case (Inr token)
    with that pc show ?thesis by (simp add: get_csrf_step Let_def)
  qed
  ultimately show ?thesis using pc by blast
qed

theorem missing_cookie_name_raises_IndexError_witness:
  "parse_cookie (foreign_cookie 302) = Inl IndexError
   \<and> fst (login (scripted [foreign_cookie 302]) (init sample_config)) = Inl IndexError
   \<and> fst (get_csrf (scripted [foreign_cookie 200]) (init sample_config)) = Inl IndexError"
proof -
  have h: "headers (foreign_cookie st) ''Set-Cookie'' = Some ''locale=nl; Path=/''" for st
    by (simp add: foreign_cookie_def)
  have n: "''locale=nl; Path=/'' \<noteq> []"
    by simp
  have f: "\<not> sublist session_cookie ''locale=nl; Path=/''"
    by (simp add: session_cookie_def sublist_code)
  have l: "scripted [foreign_cookie 302] (log (init sample_config))
             (login_request (init sample_config)) = foreign_cookie 302
           \<and> status (foreign_cookie 302) = 302"
    by (simp add: scripted_def init_def foreign_cookie_def)
  have g: "scripted [foreign_cookie 200] (log (init sample_config))
             (login_page_request (init sample_config)) = foreign_cookie 200
           \<and> status (foreign_cookie 200) = 200"
    by (simp add: scripted_def init_def foreign_cookie_def)
  from missing_cookie_name_raises_IndexError [OF h n f, of 302 "scripted [foreign_cookie 302]"
      "init sample_config"] l
  have "parse_cookie (foreign_cookie 302) = Inl IndexError
        \<and> fst (login (scripted [foreign_cookie 302]) (init sample_config)) = Inl IndexError"
    by blast
  moreover from missing_cookie_name_raises_IndexError [OF h n f, of 200
      "scripted [foreign_cookie 200]" "init sample_config"] g
  have "fst (get_csrf (scripted [foreign_cookie 200]) (init sample_config)) = Inl IndexError"
    by blast
  ultimately show ?thesis by blast
qed

section \<open>Login\<close>

text \<open>
  C2, as stated, fails: a 302 response with a \<open>Set-Cookie\<close> header takes the success
  branch, but when the header does not name the session cookie the login ends with
  \<open>IndexError\<close> and stores no cookie.
\<close>

theorem login_redirect_with_foreign_cookie:
  "status (foreign_cookie 302) = 302
   \<and> headers (foreign_cookie 302) ''Set-Cookie'' \<noteq> None
   \<and> fst (login (scripted [foreign_cookie 302]) (init sample_config)) = Inl IndexError
   \<and> cookie (snd (login (scripted [foreign_cookie 302]) (init sample_config))) = []"
  by (simp add: client_defs sample_defs)

text \<open>
  C2, amended: \<open>login\<close> raises \<open>AuthenticationError\<close> with the invalid-credentials
  message exactly when the response is not a 302 with a \<open>Set-Cookie\<close> header; it can
  succeed on a 302 with \<open>Set-Cookie\<close> only, and does so, storing the cookie extracted
  from the response, whenever the extraction returns a value and the response has a
  \<open>Location\<close> header.
\<close>

theorem login_outcome:
  assumes "resp = net (log s) (login_request s)"
  shows "((fst (login net s) = Inl (AuthenticationError ''Invalid username or password''))
            = (\<not> (status resp = 302 \<and> headers resp ''Set-Cookie'' \<noteq> None)))
       \<and> (fst (login net s) = Inr () \<longrightarrow> status resp = 302 \<and> headers resp ''Set-Cookie'' \<noteq> None)
       \<and> (status resp = 302 \<and> headers resp ''Set-Cookie'' \<noteq> None
            \<and> parse_cookie resp = Inr c \<and> headers resp ''Location'' \<noteq> None
            \<longrightarrow> fst (login net s) = Inr () \<and> cookie (snd (login net s)) = c)"
proof (cases "status resp = 302 \<and> headers resp ''Set-Cookie'' \<noteq> None")
  case False
  with assms show ?thesis by (auto simp: login_step Let_def)
next
  case True
  show ?thesis
  proof (cases "parse_cookie resp")
    case (Inl e)
    then have "e = IndexError" by (rule parse_cookie_error)
    with Inl True assms show ?thesis by (auto simp: login_step Let_def)
  next
    case (Inr c')
    with True assms show ?thesis
      by (cases "headers resp ''Location''") (auto simp: login_step Let_def)
  qed
qed

theorem login_outcome_witness:
  "fst (login (scripted [login_accepted]) (init sample_config)) = Inr ()
   \<and> cookie (snd (login (scripted [login_accepted]) (init sample_config))) = ''cookieB''
   \<and> fst (login (scripted [login_rejected]) (init sample_config))
       = Inl (AuthenticationError ''Invalid username or password'')"
proof -
  have a: "login_accepted = scripted [login_accepted] (log (init sample_config))
             (login_request (init sample_config))"
    by (simp add: scripted_def init_def)
  have r: "login_rejected = scripted [login_rejected] (log (init sample_config))
             (login_request (init sample_config))"
    by (simp add: scripted_def init_def)
  have pa: "status login_accepted = 302 \<and> headers login_accepted ''Set-Cookie'' \<noteq> None
            \<and> parse_cookie login_accepted = Inr ''cookieB''
            \<and> headers login_accepted ''Location'' \<noteq> None"
    by (simp add: login_accepted_def parse_cookie_def py_index_def py_split_def py_replace_def
                  session_cookie_def)
  have pr: "\<not> (status login_rejected = 302 \<and> headers login_rejected ''Set-Cookie'' \<noteq> None)"
    by (simp add: login_rejected_def)
  from login_outcome [where net = "scripted [login_accepted]" and s = "init sample_config"
      and resp = login_accepted and c = "''cookieB''", OF a] pa
  have "fst (login (scripted [login_accepted]) (init sample_config)) = Inr ()
        \<and> cookie (snd (login (scripted [login_accepted]) (init sample_config))) = ''cookieB''"
    by blast
  moreover from login_outcome [where net = "scripted [login_rejected]"
      and s = "init sample_config" and resp = login_rejected and c = "[]", OF r] pr
  have "fst (login (scripted [login_rejected]) (init sample_config))
          = Inl (AuthenticationError ''Invalid username or password'')"
    by blast
  ultimately show ?thesis by blast
qed

section \<open>A failed login inside update\<close>

text \<open>
  C1 on the code: a fresh client (empty cookie) polls, the login page is served and the
  credentials are rejected. \<open>update\<close> calls \<open>_ensure_authenticated\<close> before its
  \<open>try\<close>, so the \<open>AuthenticationError\<close> leaves \<open>update\<close>; nothing is cleared, and
  the pre-login cookie and token stay in the client.
\<close>

theorem update_lets_login_failure_escape:
  "cookie (init sample_config) = []
   \<and> fst (update (scripted [login_page, login_rejected]) sample_loads (init sample_config))
       = Inl (AuthenticationError ''Invalid username or password'')
   \<and> cookie (snd (update (scripted [login_page, login_rejected]) sample_loads (init sample_config)))
       = ''cookieA''
   \<and> csrf (snd (update (scripted [login_page, login_rejected]) sample_loads (init sample_config)))
       = ''abc123''"
  by (simp add: client_defs sample_defs)

section \<open>The device list\<close>

lemma map_err_wrapped:
  "map (\<lambda>kvs. map_of kvs ''device'') os = map Some ps \<Longrightarrow>
   map_err (\<lambda>x. py_getitem x ''device'') (map JObj os) = Inr ps"
proof (induction os arbitrary: ps)
  case Nil
  then show ?case by simp
next
  case (Cons kvs os)
  then obtain p ps' where "ps = p # ps'" "map_of kvs ''device'' = Some p"
    "map (\<lambda>kvs. map_of kvs ''device'') os = map Some ps'"
    by (cases ps) auto
  with Cons.IH [of ps'] show ?case by simp
qed

lemma unwrap_devices_wrapped:
  "map (\<lambda>kvs. map_of kvs ''device'') os = map Some ps \<Longrightarrow>
   unwrap_devices (JArr (map JObj os)) = Inr ps"
  by (simp add: unwrap_devices_def map_err_wrapped)

lemma map_err_not_wrapped:
  "\<not> list_all is_wrapper xs \<Longrightarrow> \<exists>e. map_err (\<lambda>x. py_getitem x ''device'') xs = Inl e"
proof (induction xs)
  case Nil
  then show ?case by simp
next
  case (Cons x xs)
  show ?case
  proof (cases "is_wrapper x")
    case True
    then obtain kvs p where "x = JObj kvs" "map_of kvs ''device'' = Some p"
      by (cases x) auto
    moreover from True Cons.prems have "\<not> list_all is_wrapper xs" by simp
    then obtain e where "map_err (\<lambda>x. py_getitem x ''device'') xs = Inl e"
      using Cons.IH by blast
    ultimately show ?thesis by simp
  next
    case False
    then have "\<exists>e. py_getitem x ''device'' = Inl e"
      by (cases x) (auto split: option.splits)
    then show ?thesis by auto
  qed
qed

lemma unwrap_devices_unexpected:
  assumes "\<not> is_device_list v"
  shows "unwrap_devices v = (if v = JStr [] \<or> v = JObj [] then Inr [] else unwrap_devices v)
       \<and> (v \<noteq> JStr [] \<and> v \<noteq> JObj [] \<longrightarrow> (\<exists>e. unwrap_devices v = Inl e))"
proof (cases v)
  case (JArr xs)
  with assms have "\<not> list_all is_wrapper xs" by simp
  then obtain e where "map_err (\<lambda>x. py_getitem x ''device'') xs = Inl e"
    using map_err_not_wrapped by blast
  with JArr show ?thesis by (simp add: unwrap_devices_def)
next
  case (JObj kvs)
  then show ?thesis by (cases kvs) (simp_all add: unwrap_devices_def)
next
  case (JStr cs)
  then show ?thesis by (cases cs) (simp_all add: unwrap_devices_def)
qed (simp_all add: unwrap_devices_def)

text \<open>
  C7: when the login step of \<open>update\<close> has passed, the device-list response has status
  200 and its body parses to a list of dictionaries of which the \<open>i\<close>-th holds the
  payload \<open>ps ! i\<close> under \<open>device\<close>, then \<open>update\<close> returns \<open>ps\<close>: the payloads in
  the order of the response.
\<close>

theorem update_unwraps_devices:
  assumes "renew_login net s = (Inr (), s1)"
    and "account_id s1 = Some a"
    and "resp = net (log s1) (device_request a s1)"
    and "status resp = 200"
    and "loads (body resp) = Some (JArr (map JObj os))"
    and "map (\<lambda>kvs. map_of kvs ''device'') os = map Some ps"
  shows "fst (update net loads s) = Inr (Some ps)"
proof -
  have "unwrap_devices (JArr (map JObj os)) = Inr ps"
    using assms(6) by (rule unwrap_devices_wrapped)
  with assms(2-5) have "get_device_data net loads s1
      = (Inr (Some ps), s1\<lparr>log := log s1 @ [device_request a s1]\<rparr>)"
    by (simp add: get_device_data_step Let_def)
  with update_after_login [OF assms(1)] show ?thesis by simp
qed

theorem update_unwraps_devices_witness:
  "fst (update
         (scripted [login_page, login_accepted, root_redirect,
                    ok_with ''[{\"device\":{\"uuid\":\"u1\",\"name\":\"Watch\"}}]''])
         sample_loads (init new_config))
     = Inr (Some [watch])"
proof -
  let ?net = "scripted [login_page, login_accepted, root_redirect,
                        ok_with ''[{\"device\":{\"uuid\":\"u1\",\"name\":\"Watch\"}}]'']"
  let ?s1 = "snd (renew_login ?net (init new_config))"
  have a1: "renew_login ?net (init new_config) = (Inr (), ?s1)"
    by (simp add: client_defs sample_defs)
  have a2: "account_id ?s1 = Some ''42''"
    by (simp add: client_defs sample_defs)
  have len: "length (log ?s1) = 3"
    by (simp add: client_defs sample_defs)
  have a3: "ok_with ''[{\"device\":{\"uuid\":\"u1\",\"name\":\"Watch\"}}]''
              = ?net (log ?s1) (device_request ''42'' ?s1)"
    by (simp add: scripted_def len)
  have a4: "status (ok_with ''[{\"device\":{\"uuid\":\"u1\",\"name\":\"Watch\"}}]'') = 200"
    by (simp add: ok_with_def)
  have a5: "sample_loads (body (ok_with ''[{\"device\":{\"uuid\":\"u1\",\"name\":\"Watch\"}}]''))
              = Some (JArr (map JObj [[(''device'', watch)]]))"
    by (simp add: ok_with_def sample_loads_def)
  have a6: "map (\<lambda>kvs. map_of kvs ''device'') [[(''device'', watch)]] = map Some [watch]"
    by simp
  from update_unwraps_devices [where loads = sample_loads, OF a1 a2 a3 a4 a5 a6] show ?thesis .
qed

text \<open>
  C9, as stated, fails: the body \<open>{}\<close> is valid JSON and no list of wrapped devices, yet
  iterating over the empty dictionary raises nothing and \<open>update\<close> returns the empty
  list, not \<open>None\<close>.
\<close>

theorem update_empty_object_gives_empty_list:
  "sample_loads ''{}'' = Some (JObj [])
   \<and> \<not> is_device_list (JObj [])
   \<and> fst (update (scripted [login_page, login_accepted, ok_with ''{}'']) sample_loads
           (init sample_config)) = Inr (Some [])"
  by (simp add: client_defs sample_defs)

text \<open>
  C9, amended: for a 200 response whose body parses to a value that is no list of
  wrapped devices, \<open>update\<close> returns \<open>None\<close>, except that the empty dictionary and the
  empty string give the empty list; in each case the client is left as it was when the
  request was sent (only the request is recorded), so the session is not cleared.
\<close>

theorem update_unexpected_json:
  assumes "renew_login net s = (Inr (), s1)"
    and "account_id s1 = Some a"
    and "resp = net (log s1) (device_request a s1)"
    and "status resp = 200"
    and "loads (body resp) = Some v"
    and "\<not> is_device_list v"
  shows "update net loads s =
           (if v = JStr [] \<or> v = JObj [] then Inr (Some []) else Inr None,
            s1\<lparr>log := log s1 @ [device_request a s1]\<rparr>)"
proof -
  from unwrap_devices_unexpected [OF assms(6)]
  have "get_device_data net loads s1 =
          (if v = JStr [] \<or> v = JObj [] then Inr (Some []) else Inr None,
           s1\<lparr>log := log s1 @ [device_request a s1]\<rparr>)"
    using assms(2-5) by (auto simp: get_device_data_step Let_def)
  with update_after_login [OF assms(1)] show ?thesis by simp
qed

theorem update_unexpected_json_witness:
  "update (scripted [ok_with ''[{\"device\":{\"uuid\":\"u1\",\"name\":\"Watch\"}},{\"id\":7}]''])
          sample_loads logged_in
     = (Inr None, logged_in\<lparr>log := [device_request ''42'' logged_in]\<rparr>)"
proof -
  let ?b = "''[{\"device\":{\"uuid\":\"u1\",\"name\":\"Watch\"}},{\"id\":7}]''"
  let ?v = "JArr [JObj [(''device'', watch)], JObj [(''id'', JInt 7)]]"
  have a1: "renew_login (scripted [ok_with ?b]) logged_in = (Inr (), logged_in)"
    by (simp add: renew_login_def logged_in_def)
  have a2: "account_id logged_in = Some ''42''"
    by (simp add: logged_in_def init_def sample_config_def)
  have l: "log logged_in = []"
    by (simp add: logged_in_def init_def)
  have a3: "ok_with ?b = scripted [ok_with ?b] (log logged_in) (device_request ''42'' logged_in)"
    by (simp add: scripted_def l)
  have a4: "status (ok_with ?b) = 200"
    by (simp add: ok_with_def)
  have a5: "sample_loads (body (ok_with ?b)) = Some ?v"
    by (simp add: ok_with_def sample_loads_def)
  have a6: "\<not> is_device_list ?v"
    by simp
  from update_unexpected_json [where loads = sample_loads, OF a1 a2 a3 a4 a5 a6] l show ?thesis by simp
qed

text \<open>
  C4, as stated, fails: a client without a cookie logs in before it fetches, so after a
  parse failure its cookie and token are those of the new session, not the empty ones
  it had before the call.
\<close>

theorem update_parse_failure_after_self_heal:
  "cookie (init sample_config) = []
   \<and> sample_loads ''<html>'' = None
   \<and> fst (update (scripted [login_page, login_accepted, ok_with ''<html>'']) sample_loads
           (init sample_config)) = Inr None
   \<and> cookie (snd (update (scripted [login_page, login_accepted, ok_with ''<html>''])
                  sample_loads (init sample_config))) = ''cookieB''
   \<and> csrf (snd (update (scripted [login_page, login_accepted, ok_with ''<html>''])
                sample_loads (init sample_config))) = ''abc123''"
  by (simp add: client_defs sample_defs)

text \<open>
  C4, amended: for a 200 response whose body does not parse, \<open>update\<close> returns \<open>None\<close>
  and leaves the client as it was when the device-list request was sent; that is the
  state before the call whenever the client entered \<open>update\<close> with a cookie.
\<close>

theorem update_unparsable_body:
  assumes "renew_login net s = (Inr (), s1)"
    and "account_id s1 = Some a"
    and "resp = net (log s1) (device_request a s1)"
    and "status resp = 200"
    and "loads (body resp) = None"
  shows "update net loads s = (Inr None, s1\<lparr>log := log s1 @ [device_request a s1]\<rparr>)
       \<and> (cookie s \<noteq> [] \<longrightarrow> s1 = s)"
proof -
  from assms(2-5) have "get_device_data net loads s1
      = (Inr None, s1\<lparr>log := log s1 @ [device_request a s1]\<rparr>)"
    by (simp add: get_device_data_step Let_def)
  with update_after_login [OF assms(1)] assms(1) show ?thesis
    by (auto simp: renew_login_def)
qed

theorem update_unparsable_body_witness:
  "update (scripted [ok_with ''<html>'']) sample_loads logged_in
     = (Inr None, logged_in\<lparr>log := [device_request ''42'' logged_in]\<rparr>)
   \<and> cookie logged_in \<noteq> []"
proof -
  have a1: "renew_login (scripted [ok_with ''<html>'']) logged_in = (Inr (), logged_in)"
    by (simp add: renew_login_def logged_in_def)
  have a2: "account_id logged_in = Some ''42''"
    by (simp add: logged_in_def init_def sample_config_def)
  have l: "log logged_in = []"
    by (simp add: logged_in_def init_def)
  have a3: "ok_with ''<html>''
              = scripted [ok_with ''<html>''] (log logged_in) (device_request ''42'' logged_in)"
    by (simp add: scripted_def l)
  have a4: "status (ok_with ''<html>'') = 200"
    by (simp add: ok_with_def)
  have a5: "sample_loads (body (ok_with ''<html>'')) = None"
    by (simp add: ok_with_def sample_loads_def)
  have c: "cookie logged_in \<noteq> []"
    by (simp add: logged_in_def)
  from update_unparsable_body [where loads = sample_loads, OF a1 a2 a3 a4 a5] l c show ?thesis by simp
qed

section \<open>The requests of a poll\<close>

lemma log_get_csrf: "log (snd (get_csrf net s)) = log s @ [login_page_request s]"
  by (simp add: get_csrf_step Let_def split: sum.splits)

lemma log_login: "log (snd (login net s)) = log s @ [login_request s]"
  by (simp add: login_step Let_def split: sum.splits option.splits)

lemma log_get_user_id: "log (snd (get_user_id net s)) = log s @ [user_id_request s]"
  by (simp add: get_user_id_step Let_def split: sum.splits option.splits)



lemma cookie_get_user_id: "cookie (snd (get_user_id net s)) = cookie s"
  by (simp add: get_user_id_step Let_def split: sum.splits option.splits)

lemma csrf_get_user_id: "csrf (snd (get_user_id net s)) = csrf s"
  by (simp add: get_user_id_step Let_def split: sum.splits option.splits)

lemma get_user_id_account:
  "get_user_id net s = (Inr a, s1) \<Longrightarrow> account_id s1 = Some a"
  by (auto simp: get_user_id_step Let_def split: sum.splits option.splits)

lemma no_json_headers:
  "\<not> is_device_fetch (build_request u d redirects False None s)"
  by (simp add: is_device_fetch_def build_request_def Let_def)

lemma auth_requests_are_no_fetch:
  "\<not> is_device_fetch (login_page_request s)"
  "\<not> is_device_fetch (login_request s)"
  "\<not> is_device_fetch (user_id_request s)"
  by (simp_all add: login_page_request_def login_request_def user_id_request_def no_json_headers)

lemma device_request_is_fetch: "is_device_fetch (device_request a s)"
  by (simp add: device_request_def is_device_fetch_def build_request_def Let_def)

lemma device_request_cookie:
  "sent_cookie (device_request a s) = (if cookie s = [] then None else Some (cookie s))"
  by (simp add: device_request_def sent_cookie_def build_request_def Let_def)

lemma sent_since_append: "log s' = log s @ ext \<Longrightarrow> sent_since s s' = ext"
  by (simp add: sent_since_def)

lemma get_csrf_log: "get_csrf net s = (r, s') \<Longrightarrow> log s' = log s @ [login_page_request s]"
  using log_get_csrf [of net s] by simp

lemma login_log: "login net s = (r, s') \<Longrightarrow> log s' = log s @ [login_request s]"
  using log_login [of net s] by simp

lemma get_user_id_log: "get_user_id net s = (r, s') \<Longrightarrow> log s' = log s @ [user_id_request s]"
  using log_get_user_id [of net s] by simp

lemma get_user_id_cookie: "get_user_id net s = (r, s') \<Longrightarrow> cookie s' = cookie s"
  using cookie_get_user_id [of net s] by simp



lemma get_device_data_log:
  "account_id s = Some a \<Longrightarrow>
   log (snd (get_device_data net loads s)) = log s @ [device_request a s]"
  by (simp add: get_device_data_step Let_def split: option.splits sum.splits)

text \<open>What the login step of \<open>update\<close> does for a client without a cookie.\<close>

lemma renew_login_fresh:
  assumes "cookie s = []"
  obtains (failed) e s1 ext where
      "renew_login net s = (Inl e, s1)" "log s1 = log s @ login_page_request s # ext"
      "\<forall>q \<in> set ext. \<not> is_device_fetch q"
  | (passed) sa sb s1 a ext where
      "renew_login net s = (Inr (), s1)"
      "get_csrf net s = (Inr (), sa)" "login net sa = (Inr (), sb)"
      "if account_id sb = None \<or> account_id sb = Some []
       then get_user_id net sb = (Inr a, s1) else s1 = sb"
      "account_id s1 = Some a" "cookie s1 = cookie sb"
      "log s1 = log s @ login_page_request s # ext"
      "\<forall>q \<in> set ext. \<not> is_device_fetch q"
proof -
  obtain ra sa where a: "get_csrf net s = (ra, sa)" by (cases "get_csrf net s")
  note la = get_csrf_log [OF a]
  show thesis
  proof (cases ra)
    case (Inl e)
    with a assms have "renew_login net s = (Inl e, sa)"
      by (simp add: renew_login_def ensure_authenticated_def)
    with la show thesis
      by (intro failed [of e sa "[]"]) (simp_all add: auth_requests_are_no_fetch)
  next
    case (Inr u)
    obtain rb sb where b: "login net sa = (rb, sb)" by (cases "login net sa")
    have lb: "log sb = log s @ [login_page_request s, login_request sa]"
      using login_log [OF b] la by simp
    show thesis
    proof (cases rb)
      case (Inl e)
      with a b Inr assms have "renew_login net s = (Inl e, sb)"
        by (simp add: renew_login_def ensure_authenticated_def)
      with lb show thesis
        by (intro failed [of e sb "[login_request sa]"])
           (simp_all add: auth_requests_are_no_fetch)
    next
      case (Inr v)
      note ok = a b \<open>ra = Inr u\<close> \<open>rb = Inr v\<close>
      show thesis
      proof (cases "account_id sb = None \<or> account_id sb = Some []")
        case False
        then obtain acc where acc: "account_id sb = Some acc" by auto
        from ok False assms have "renew_login net s = (Inr (), sb)"
          by (auto simp: renew_login_def ensure_authenticated_def)
        with ok False acc lb show thesis
          by (intro passed [of sb sa sb acc "[login_request sa]"])
             (simp_all add: auth_requests_are_no_fetch)
      next
        case True
        obtain rc s1 where c: "get_user_id net sb = (rc, s1)" by (cases "get_user_id net sb")
        have lc: "log s1 = log s @ [login_page_request s, login_request sa, user_id_request sb]"
          using get_user_id_log [OF c] lb by simp
        show thesis
        proof (cases rc)
          case (Inl e)
          with ok c True assms have "renew_login net s = (Inl e, s1)"
            by (auto simp: renew_login_def ensure_authenticated_def)
          with lc show thesis
            by (intro failed [of e s1
                  "[login_request sa, user_id_request sb]"])
               (simp_all add: auth_requests_are_no_fetch)
        next
          case (Inr acc)
          with ok c True assms have "renew_login net s = (Inr (), s1)"
            by (auto simp: renew_login_def ensure_authenticated_def)
          moreover from c Inr have "account_id s1 = Some acc"
            by (simp add: get_user_id_account)
          moreover have "cookie s1 = cookie sb"
            using c by (rule get_user_id_cookie)
          ultimately show thesis using ok c True Inr lc
            by (intro passed [of s1 sa sb acc
                  "[login_request sa, user_id_request sb]"])
               (simp_all add: auth_requests_are_no_fetch)
        qed
      qed
    qed
  qed
qed

lemma get_device_data_no_account_log:
  "account_id s = None \<Longrightarrow> snd (get_device_data net loads s) = s"
  by (simp add: get_device_data_no_account)



text \<open>
  C5, as stated, fails: a client that knows its account id and has no cookie logs in
  without the account-id discovery (no request goes to the base URL), and when the login
  response resets the session cookie to the empty value, the device list is fetched with
  no session cookie at all.
\<close>

theorem update_fetches_with_cleared_cookie:
  "cookie (init sample_config) = []
   \<and> map url (log (snd (update (scripted [login_page, login_cookie_cleared, ok_with ''[]''])
                           sample_loads (init sample_config))))
       = [login_url, login_url, device_list_url ''42'']
   \<and> map sent_cookie (log (snd (update (scripted [login_page, login_cookie_cleared, ok_with ''[]''])
                                   sample_loads (init sample_config))))
       = [None, Some ''cookieA'', None]
   \<and> map is_device_fetch (log (snd (update (scripted [login_page, login_cookie_cleared, ok_with ''[]''])
                                       sample_loads (init sample_config))))
       = [False, False, True]"
  by (simp add: client_defs sample_defs sent_cookie_def is_device_fetch_def)

text \<open>
  C5, amended: a device-list request is sent by \<open>update\<close> only after its login step has
  passed, it is the last request of the call, and it carries the cookie the client holds
  then. For a client that entered with a cookie no other request is sent. For a client
  that entered without one, \<open>get_csrf\<close> and \<open>login\<close> have both succeeded before, and
  \<open>get_user_id\<close> too when the account id was absent (otherwise it is not run); the
  request carries the cookie that the login stored.
\<close>

theorem update_fetch_follows_login:
  assumes "r \<in> set (sent_since s (snd (update net loads s)))" and "is_device_fetch r"
  shows "\<exists>s1 a. renew_login net s = (Inr (), s1) \<and> account_id s1 = Some a
           \<and> r = device_request a s1
           \<and> sent_since s (snd (update net loads s)) = sent_since s s1 @ [r]
           \<and> (\<forall>q \<in> set (sent_since s s1). \<not> is_device_fetch q)
           \<and> sent_cookie r = (if cookie s1 = [] then None else Some (cookie s1))
           \<and> (cookie s \<noteq> [] \<longrightarrow> s1 = s)
           \<and> (cookie s = [] \<longrightarrow>
                (\<exists>sa sb. get_csrf net s = (Inr (), sa) \<and> login net sa = (Inr (), sb)
                   \<and> cookie s1 = cookie sb
                   \<and> (if account_id sb = None \<or> account_id sb = Some []
                       then get_user_id net sb = (Inr a, s1) else s1 = sb)))"
proof -
  have main: ?thesis
    if ok: "renew_login net s = (Inr (), s1)" and ext: "log s1 = log s @ ext"
      and quiet: "\<forall>q \<in> set ext. \<not> is_device_fetch q"
      and entry: "cookie s \<noteq> [] \<longrightarrow> s1 = s"
      and fresh: "cookie s = [] \<longrightarrow>
                (\<exists>sa sb. get_csrf net s = (Inr (), sa) \<and> login net sa = (Inr (), sb)
                   \<and> cookie s1 = cookie sb
                   \<and> (\<forall>a. account_id s1 = Some a \<longrightarrow>
                        (if account_id sb = None \<or> account_id sb = Some []
                         then get_user_id net sb = (Inr a, s1) else s1 = sb)))"
    for s1 ext
  proof (cases "account_id s1")
    case None
    then have "sent_since s (snd (update net loads s)) = ext"
      using ok ext by (simp add: update_after_login get_device_data_no_account sent_since_append)
    with assms quiet show ?thesis by blast
  next
    case (Some a)
    have "log (snd (update net loads s)) = log s @ ext @ [device_request a s1]"
      using ok ext Some by (simp add: update_after_login get_device_data_log)
    then have sent: "sent_since s (snd (update net loads s)) = ext @ [device_request a s1]"
      by (rule sent_since_append)
    with assms quiet have r: "r = device_request a s1" by auto
    have "sent_since s s1 = ext" using ext by (rule sent_since_append)
    with ok Some r sent quiet entry fresh show ?thesis
      by (auto simp: device_request_cookie)
  qed
  show ?thesis
  proof (cases "cookie s = []")
    case False
    then have "renew_login net s = (Inr (), s)" by (simp add: renew_login_def)
    then show ?thesis using False by (intro main [of s "[]"]) simp_all
  next
    case True
    then show ?thesis
    proof (cases rule: renew_login_fresh [where net = net])
      case (failed e s1 ext)
      then have "sent_since s (snd (update net loads s)) = login_page_request s # ext"
        by (simp add: update_login_failed sent_since_append)
      with assms failed(3) auth_requests_are_no_fetch(1) [of s] show ?thesis by auto
    next
      case (passed sa sb s1 a ext)
      from passed show ?thesis
        by (intro main [of s1 "login_page_request s # ext"])
           (auto simp: auth_requests_are_no_fetch True)
    qed
  qed
qed

theorem update_fetch_follows_login_witness:
  "is_device_fetch
     (last (log (snd (update (scripted [login_page, login_accepted, root_redirect, ok_with ''[]''])
                        sample_loads (init new_config)))))
   \<and> sent_cookie
       (last (log (snd (update (scripted [login_page, login_accepted, root_redirect, ok_with ''[]''])
                          sample_loads (init new_config)))))
       = Some ''cookieB''"
proof -
  let ?net = "scripted [login_page, login_accepted, root_redirect, ok_with ''[]'']"
  let ?s = "init new_config"
  let ?r = "last (log (snd (update ?net sample_loads ?s)))"
  have m: "?r \<in> set (sent_since ?s (snd (update ?net sample_loads ?s)))"
    by (simp add: client_defs sample_defs sent_since_def)
  have f: "is_device_fetch ?r"
    by (simp add: client_defs sample_defs is_device_fetch_def)
  from update_fetch_follows_login [OF m f] obtain s1 where
    "renew_login ?net ?s = (Inr (), s1)"
    "sent_cookie ?r = (if cookie s1 = [] then None else Some (cookie s1))"
    by blast
  moreover have "cookie (snd (renew_login ?net ?s)) = ''cookieB''"
    by (simp add: client_defs sample_defs)
  ultimately have "sent_cookie ?r = Some ''cookieB''" by simp
  with f show ?thesis by blast
qed

section \<open>A rejected session\<close>




section \<open>Sending a message\<close>

lemma send_device_message_step:
  assumes "ensure_authenticated net s = (Inr (), s1)"
  shows "send_device_message net d m title s =
     (let page = net (log s1) (message_page_request d s1);
          s2 = s1\<lparr>log := log s1 @ [message_page_request d s1]\<rparr>
      in if status page \<noteq> 200
         then (Inl (AuthenticationError ''Unable to access message page''), s2)
         else
           (case parse_csrf (body page) of
              Inl ex \<Rightarrow> (Inl (AuthenticationError ''CSRF token missing''), s2)
            | Inr t \<Rightarrow>
                (if status (net (log s2) (message_post_request d t m s2)) \<noteq> 200
                 then Inl (AuthenticationError ''Failed to send message'') else Inr (),
                 s2\<lparr>log := log s2 @ [message_post_request d t m s2]\<rparr>)))"
  using assms
  by (auto simp: send_device_message_def call_api_def message_page_request_def
                 message_post_request_def build_request_def Let_def
           split: sum.splits)

text \<open>
  C8, as stated, fails: the three listed cases are not the only ones. A client without a
  session whose login page is unavailable raises \<open>AuthenticationError\<close> from the
  ensure-authenticated step, before the message page is ever requested.
\<close>

theorem send_fails_before_message_page:
  "fst (send_device_message (scripted [unavailable]) ''d1'' ''hello'' None (init sample_config))
     = Inl (AuthenticationError ''Login page unavailable'')
   \<and> map url (log (snd (send_device_message (scripted [unavailable]) ''d1'' ''hello'' None
                           (init sample_config))))
       = [login_url]"
  by (simp add: client_defs sample_defs)

text \<open>
  C8, amended: once the ensure-authenticated step has passed, \<open>send_device_message\<close>
  raises \<open>AuthenticationError\<close> exactly when the message page is not a 200, or no token
  can be extracted from it, or the final POST is not a 200; in every other case it
  returns normally. Either way configuration, cookie, token and account id are those the
  ensure-authenticated step left.
\<close>

theorem send_device_message_outcome:
  assumes "ensure_authenticated net s = (Inr (), s1)"
    and "page = net (log s1) (message_page_request d s1)"
    and "s2 = s1\<lparr>log := log s1 @ [message_page_request d s1]\<rparr>"
    and "s' = snd (send_device_message net d m title s)"
  shows "((\<exists>msg. fst (send_device_message net d m title s) = Inl (AuthenticationError msg))
            = (status page \<noteq> 200
               \<or> (\<exists>ex. parse_csrf (body page) = Inl ex)
               \<or> (\<exists>t. parse_csrf (body page) = Inr t
                      \<and> status (net (log s2) (message_post_request d t m s2)) \<noteq> 200)))
       \<and> ((\<exists>msg. fst (send_device_message net d m title s) = Inl (AuthenticationError msg))
            \<or> fst (send_device_message net d m title s) = Inr ())
       \<and> cookie s' = cookie s1 \<and> csrf s' = csrf s1 \<and> account_id s' = account_id s1
       \<and> config s' = config s1"
proof (cases "status page = 200")
  case False
  with assms show ?thesis by (simp add: send_device_message_step Let_def)
next
  case True
  show ?thesis
  proof (cases "parse_csrf (body page)")
    case (Inl ex)
    with True assms show ?thesis by (simp add: send_device_message_step Let_def)
  next
    case (Inr t)
    with True assms show ?thesis by (simp add: send_device_message_step Let_def)
  qed
qed

theorem send_device_message_outcome_witness:
  "fst (send_device_message (scripted [login_page, ok_with []]) ''d1'' ''hello'' None logged_in)
     = Inr ()
   \<and> cookie (snd (send_device_message (scripted [login_page, ok_with []]) ''d1'' ''hello'' None
                  logged_in)) = ''cookieB''"
proof -
  let ?net = "scripted [login_page, ok_with []]"
  let ?s2 = "logged_in\<lparr>log := log logged_in @ [message_page_request ''d1'' logged_in]\<rparr>"
  let ?r = "fst (send_device_message ?net ''d1'' ''hello'' None logged_in)"
  have e: "ensure_authenticated ?net logged_in = (Inr (), logged_in)"
    by (simp add: ensure_authenticated_def logged_in_def init_def sample_config_def)
  have l: "log logged_in = []"
    by (simp add: logged_in_def init_def)
  have p: "login_page = ?net (log logged_in) (message_page_request ''d1'' logged_in)"
    by (simp add: scripted_def l)
  have page: "status login_page = 200" "parse_csrf (body login_page) = Inr ''abc123''"
    by (simp_all add: login_page_def parse_csrf_def py_index_def py_split_def csrf_marker_def)
  have good: "status (?net (log ?s2) (message_post_request ''d1'' ''abc123'' ''hello'' ?s2)) = 200"
    by (simp add: scripted_def l ok_with_def)
  have c: "cookie logged_in = ''cookieB''"
    by (simp add: logged_in_def)
  note outcome = send_device_message_outcome [where net = ?net and d = "''d1''"
      and m = "''hello''" and title = None, OF e p refl refl]
  have "\<not> (\<exists>msg. ?r = Inl (AuthenticationError msg))"
    unfolding outcome [THEN conjunct1] using page good by simp
  with outcome [THEN conjunct2, THEN conjunct1] have "?r = Inr ()"
    by blast
  with outcome [THEN conjunct2, THEN conjunct2, THEN conjunct1] c show ?thesis
    by simp
qed

end
